theory Spec2Isabelle
  imports Main "HOL-Library.Sublist"
begin

section \<open>The OCLint driver (oclint-driver/main.cpp)\<close>

text \<open>
  A shallow embedding of the driver's \<^verbatim>\<open>main.cpp\<close>: rule loading, reporter loading,
  the analysis call, the reporting loop with its output streams, and the exit decision.
  Everything the driver does to the outside (standard output, standard error, report
  files, the global rule set and result collector) is a field of an explicit state that
  every function takes and returns. A C++ exception is a value: the text of its
  \<^verbatim>\<open>what()\<close> on the left of a sum.
\<close>

subsection \<open>Exit codes, options, results\<close>

text \<open>
  Modelled from the spec: \<^verbatim>\<open>oclint/ExitCode.h\<close> is not among the sources. The spec
  lists the outcomes as distinct process exit statuses; \<^verbatim>\<open>SUCCESS\<close> is the zero
  status, so that \<^verbatim>\<open>if (prepareStatus)\<close> in \<^verbatim>\<open>main\<close> is the test
  \<open>prepareStatus \<noteq> SUCCESS\<close>.
\<close>

datatype exit_code =
    SUCCESS
  | RULE_NOT_FOUND
  | REPORTER_NOT_FOUND
  | ERROR_WHILE_PROCESSING
  | ERROR_WHILE_REPORTING
  | VIOLATIONS_EXCEED_THRESHOLD
  | COMPILATION_ERRORS
  | COMMON_OPTIONS_PARSER_ERRORS

text \<open>
  The values of \<^verbatim>\<open>oclint::option\<close> that \<^verbatim>\<open>main.cpp\<close> reads, as they are after
  \<^verbatim>\<open>oclint::option::process\<close>. \<open>reportType\<close> is the list of requested reporter names.
\<close>

record options =
  rulesPath :: "string list"
  reportType :: "string list"
  hasOutputPath :: bool
  outputPath :: string
  maxP1 :: int
  maxP2 :: int
  maxP3 :: int
  allowDuplicatedViolations :: bool
  showEnabledRules :: bool

text \<open>
  The two implementations of \<^verbatim>\<open>oclint::Results\<close>, each constructed over the result
  collector \<open>'c\<close>.
\<close>

datatype 'c results = RawResults 'c | UniqueResults 'c

text \<open>
  What a call of \<^verbatim>\<open>report\<close> does to its stream: the text that has left the stream's
  buffer when the call ends (the reporter flushed it, or the buffer was full), the text
  written after that, which is still in the buffer, and the exception the call ends with,
  if any.
\<close>

record report_effect =
  flushed :: string
  pending :: string
  raised :: "string option"

text \<open>A reporter has a name and a \<^verbatim>\<open>report\<close> method.\<close>

record 'c reporter =
  name :: string
  report :: "'c results \<Rightarrow> report_effect"

text \<open>An output stream is \<^verbatim>\<open>std::cout\<close> or an \<^verbatim>\<open>ofstream\<close> on a path.\<close>

datatype ostream = Cout | OfStream string

datatype call = DynamicLoadRules string | LoadReporter | DriverRun | Report string

text \<open>
  The state: the two standard channels, the contents of the files on disk, the text held
  in the buffer of each open \<^verbatim>\<open>ofstream\<close> (by path), the streams that were closed, the
  global rule set, the global result collector, the reporters that \<^verbatim>\<open>reporters()\<close>
  returns, and the calls made to the collaborators, in order. The standard output is what
  the process has written when it exits, so its own buffer is not modelled.
\<close>

record ('rs, 'c) world =
  cout :: string
  cerr :: string
  files :: "string \<rightharpoonup> string"
  buffered :: "string \<rightharpoonup> string"
  closedStreams :: "ostream list"
  ruleSet :: 'rs
  collector :: 'c
  loadedReporters :: "'c reporter list"
  calls :: "call list"

text \<open>
  The collaborators whose code is outside \<^verbatim>\<open>main.cpp\<close>, as parameters: the option
  parser, the plugin loader, the rule set's counter and filter, the reporter registry,
  the analysis driver, the two observations of a \<^verbatim>\<open>Results\<close> view that the driver
  reads, and whether the file system lets a path be opened for writing.
\<close>

record ('rs, 'c) env =
  parserError :: "string option"
  dynamicLoadRules :: "string \<Rightarrow> 'rs \<Rightarrow> string + 'rs"
  numberOfRules :: "'rs \<Rightarrow> int"
  filteredRuleNames :: "'rs \<Rightarrow> string list"
  reporterRegistry :: "string \<rightharpoonup> 'c reporter"
  driverRun :: "'rs \<Rightarrow> 'c \<Rightarrow> string option \<times> 'c"
  hasErrors :: "'c results \<Rightarrow> bool"
  numberOfViolationsWithPriority :: "'c results \<Rightarrow> int \<Rightarrow> int"
  canOpen :: "string \<Rightarrow> bool"

subsection \<open>Writing to the standard channels\<close>

definition endl :: string where
  "endl = [CHR 0x0A]"

definition digit_char :: "nat \<Rightarrow> char" where
  "digit_char d = ''0123456789'' ! d"

fun show_nat :: "nat \<Rightarrow> string" where
  "show_nat n = (if n < 10 then [digit_char n] else show_nat (n div 10) @ [digit_char (n mod 10)])"

declare show_nat.simps [simp del]

text \<open>\<^verbatim>\<open>operator<<\<close> on an \<^verbatim>\<open>int\<close>: decimal digits, with a minus sign below zero.\<close>

definition show_int :: "int \<Rightarrow> string" where
  "show_int i = (if i < 0 then CHR ''-'' # show_nat (nat (- i)) else show_nat (nat i))"

definition to_cerr :: "string \<Rightarrow> ('rs, 'c) world \<Rightarrow> ('rs, 'c) world" where
  "to_cerr s w = w\<lparr>cerr := cerr w @ s\<rparr>"

definition to_cout :: "string \<Rightarrow> ('rs, 'c) world \<Rightarrow> ('rs, 'c) world" where
  "to_cout s w = w\<lparr>cout := cout w @ s\<rparr>"

definition printErrorLine :: "string \<Rightarrow> ('rs, 'c) world \<Rightarrow> ('rs, 'c) world" where
  "printErrorLine errorMessage w = to_cerr (endl @ ''oclint: error: '' @ errorMessage @ endl) w"

subsection \<open>The threshold gate\<close>

definition numberOfViolationsExceedThreshold ::
  "('rs, 'c) env \<Rightarrow> options \<Rightarrow> 'c results \<Rightarrow> bool" where
  "numberOfViolationsExceedThreshold e opts res =
     (numberOfViolationsWithPriority e res 1 > maxP1 opts \<or>
      numberOfViolationsWithPriority e res 2 > maxP2 opts \<or>
      numberOfViolationsWithPriority e res 3 > maxP3 opts)"

definition printViolationsExceedThresholdError ::
  "('rs, 'c) env \<Rightarrow> options \<Rightarrow> 'c results \<Rightarrow> ('rs, 'c) world \<Rightarrow> ('rs, 'c) world" where
  "printViolationsExceedThresholdError e opts res w =
     (let w1 = printErrorLine ''violations exceed threshold'' w;
          w2 = to_cerr (''P1='' @ show_int (numberOfViolationsWithPriority e res 1)
                 @ ''['' @ show_int (maxP1 opts) @ ''] '') w1;
          w3 = to_cerr (''P2='' @ show_int (numberOfViolationsWithPriority e res 2)
                 @ ''['' @ show_int (maxP2 opts) @ ''] '') w2
      in to_cerr (''P3='' @ show_int (numberOfViolationsWithPriority e res 3)
                 @ ''['' @ show_int (maxP3 opts) @ ''] '' @ endl) w3)"

definition getResults :: "options \<Rightarrow> 'c \<Rightarrow> 'c results" where
  "getResults opts c =
     (if allowDuplicatedViolations opts then RawResults c else UniqueResults c)"

definition handleExit ::
  "('rs, 'c) env \<Rightarrow> options \<Rightarrow> 'c results \<Rightarrow> ('rs, 'c) world \<Rightarrow> exit_code \<times> ('rs, 'c) world" where
  "handleExit e opts res w =
     (if hasErrors e res then (COMPILATION_ERRORS, w)
      else if numberOfViolationsExceedThreshold e opts res
        then (VIOLATIONS_EXCEED_THRESHOLD, printViolationsExceedThresholdError e opts res w)
      else (SUCCESS, w))"

subsection \<open>Path decomposition (llvm::sys::path, POSIX style)\<close>

text \<open>
  \<^verbatim>\<open>outStream\<close> calls \<^verbatim>\<open>llvm::sys::path::parent_path\<close> and \<^verbatim>\<open>llvm::sys::path::stem\<close>.
  They are transcribed here from LLVM's \<^verbatim>\<open>lib/Support/Path.cpp\<close> for the POSIX style,
  where \<^verbatim>\<open>/\<close> is the only separator. \<^verbatim>\<open>StringRef::npos\<close> is \<open>None\<close>.
\<close>

definition is_separator :: "char \<Rightarrow> bool" where
  "is_separator c = (c = CHR ''/'')"

definition find_last_of :: "(char \<Rightarrow> bool) \<Rightarrow> string \<Rightarrow> nat option" where
  "find_last_of P str =
     (let k = length (takeWhile (\<lambda>c. \<not> P c) (rev str))
      in if k < length str then Some (length str - 1 - k) else None)"

definition find_first_of :: "(char \<Rightarrow> bool) \<Rightarrow> nat \<Rightarrow> string \<Rightarrow> nat option" where
  "find_first_of P from str =
     (let k = length (takeWhile (\<lambda>c. \<not> P c) (drop from str))
      in if from + k < length str then Some (from + k) else None)"

definition filename_pos :: "string \<Rightarrow> nat" where
  "filename_pos str =
     (if length str > 0 \<and> is_separator (str ! (length str - 1)) then length str - 1
      else (case find_last_of is_separator str of
              None \<Rightarrow> 0
            | Some pos \<Rightarrow> if pos = 1 \<and> is_separator (str ! 0) then 0 else pos + 1))"

definition root_dir_start :: "string \<Rightarrow> nat option" where
  "root_dir_start str =
     (if length str > 3 \<and> is_separator (str ! 0) \<and> str ! 0 = str ! 1 \<and> \<not> is_separator (str ! 2)
        then find_first_of is_separator 2 str
      else if length str > 0 \<and> is_separator (str ! 0) then Some 0
      else None)"

text \<open>The loop of \<^verbatim>\<open>parent_path_end\<close>, which steps back over separators.\<close>

fun skip_separators :: "string \<Rightarrow> nat option \<Rightarrow> nat \<Rightarrow> nat" where
  "skip_separators path root_dir_pos 0 = 0"
| "skip_separators path root_dir_pos (Suc n) =
     (if (case root_dir_pos of None \<Rightarrow> True | Some r \<Rightarrow> Suc n > r) \<and> is_separator (path ! n)
        then skip_separators path root_dir_pos n
      else Suc n)"

definition parent_path_end :: "string \<Rightarrow> nat" where
  "parent_path_end path =
     (let end_pos = filename_pos path;
          filename_was_sep = (length path > 0 \<and> is_separator (path ! end_pos));
          root_dir_pos = root_dir_start path;
          end_pos' = skip_separators path root_dir_pos end_pos
      in if Some end_pos' = root_dir_pos \<and> \<not> filename_was_sep then end_pos' + 1 else end_pos')"

definition parent_path :: "string \<Rightarrow> string" where
  "parent_path path = take (parent_path_end path) path"

text \<open>The loop of \<^verbatim>\<open>reverse_iterator::operator++\<close>.\<close>

fun skip_trailing :: "string \<Rightarrow> nat option \<Rightarrow> nat \<Rightarrow> nat" where
  "skip_trailing path root_dir_pos 0 = 0"
| "skip_trailing path root_dir_pos (Suc n) =
     (if Some n \<noteq> root_dir_pos \<and> is_separator (path ! n)
        then skip_trailing path root_dir_pos n
      else Suc n)"

text \<open>\<^verbatim>\<open>filename(path)\<close> is \<^verbatim>\<open>*rbegin(path)\<close>: the last component.\<close>

definition filename :: "string \<Rightarrow> string" where
  "filename path =
     (let root_dir_pos = root_dir_start path;
          end_pos = skip_trailing path root_dir_pos (length path)
      in if path \<noteq> [] \<and> is_separator (last path) \<and>
            (case root_dir_pos of None \<Rightarrow> True | Some r \<Rightarrow> end_pos = 0 \<or> end_pos - 1 > r)
           then ''.''
         else drop (filename_pos (take end_pos path)) (take end_pos path))"

definition stem :: "string \<Rightarrow> string" where
  "stem path =
     (let fname = filename path
      in case find_last_of (\<lambda>c. c = CHR ''.'') fname of
           None \<Rightarrow> fname
         | Some pos \<Rightarrow> if fname = ''.'' \<or> fname = ''..'' then fname else take pos fname)"

subsection \<open>Output streams\<close>

text \<open>The path that \<^verbatim>\<open>outStream\<close> computes for a reporter (line 62).\<close>

definition derivedOutput :: "options \<Rightarrow> 'c reporter \<Rightarrow> string" where
  "derivedOutput opts r =
     parent_path (outputPath opts) @ ''/'' @ stem (outputPath opts) @ ''.'' @ name r"

text \<open>
  Opening an \<^verbatim>\<open>ofstream\<close> on a path that can be opened leaves an empty file there and
  an empty buffer in the stream. A path that cannot be opened raises
  \<^verbatim>\<open>GenericException\<close>.
\<close>

definition outStream ::
  "('rs, 'c) env \<Rightarrow> options \<Rightarrow> 'c reporter \<Rightarrow> ('rs, 'c) world
     \<Rightarrow> (string + ostream) \<times> ('rs, 'c) world" where
  "outStream e opts r w =
     (if \<not> hasOutputPath opts then (Inr Cout, w)
      else let output = derivedOutput opts r
           in if \<not> canOpen e output
                then (Inl (''cannot open report output file '' @ output), w)
              else (Inr (OfStream output),
                    w\<lparr>files := (files w)(output \<mapsto> []),
                      buffered := (buffered w)(output \<mapsto> [])\<rparr>))"

text \<open>
  An \<^verbatim>\<open>ofstream\<close> is buffered: what is written to it stays in its buffer until the
  stream is flushed or closed, and only then reaches the file. A stream that is never
  closed nor destroyed never writes its buffer out.
\<close>

fun write_stream :: "ostream \<Rightarrow> string \<Rightarrow> ('rs, 'c) world \<Rightarrow> ('rs, 'c) world" where
  "write_stream Cout s w = to_cout s w"
| "write_stream (OfStream p) s w =
     w\<lparr>buffered := (buffered w)(p \<mapsto> (case buffered w p of None \<Rightarrow> s | Some t \<Rightarrow> t @ s))\<rparr>"

fun flush_stream :: "ostream \<Rightarrow> ('rs, 'c) world \<Rightarrow> ('rs, 'c) world" where
  "flush_stream Cout w = w"
| "flush_stream (OfStream p) w =
     (case buffered w p of
        None \<Rightarrow> w
      | Some t \<Rightarrow>
          w\<lparr>files := (files w)(p \<mapsto> (case files w p of None \<Rightarrow> t | Some f \<Rightarrow> f @ t)),
            buffered := (buffered w)(p \<mapsto> [])\<rparr>)"

text \<open>\<^verbatim>\<open>close()\<close> writes the buffer out and ends the stream.\<close>

definition close_stream :: "ostream \<Rightarrow> ('rs, 'c) world \<Rightarrow> ('rs, 'c) world" where
  "close_stream out w =
     (let w1 = flush_stream out w
      in w1\<lparr>buffered := (case out of Cout \<Rightarrow> buffered w1
                                     | OfStream p \<Rightarrow> (buffered w1)(p := None)),
            closedStreams := closedStreams w1 @ [out]\<rparr>)"

text \<open>The argument is a pointer: \<open>None\<close> is the null pointer.\<close>

definition disposeOutStream ::
  "options \<Rightarrow> ostream option \<Rightarrow> ('rs, 'c) world \<Rightarrow> ('rs, 'c) world" where
  "disposeOutStream opts out w =
     (case out of
        None \<Rightarrow> w
      | Some s \<Rightarrow> if hasOutputPath opts then close_stream s w else w)"

definition listRules :: "('rs, 'c) env \<Rightarrow> ('rs, 'c) world \<Rightarrow> ('rs, 'c) world" where
  "listRules e w =
     to_cout (''Enabled rules:'' @ endl
              @ concat (map (\<lambda>ruleName. ''- '' @ ruleName @ endl) (filteredRuleNames e (ruleSet w)))
              @ endl) w"

subsection \<open>Start-up\<close>

text \<open>
  The loop of \<^verbatim>\<open>consumeArgRulesPath\<close> over the configured rule paths. An exception of
  \<^verbatim>\<open>dynamicLoadRules\<close> leaves the loop at once.
\<close>

fun loadRulePaths ::
  "('rs, 'c) env \<Rightarrow> string list \<Rightarrow> ('rs, 'c) world \<Rightarrow> (string + unit) \<times> ('rs, 'c) world" where
  "loadRulePaths e [] w = (Inr (), w)"
| "loadRulePaths e (rulePath # rest) w =
     (let w1 = w\<lparr>calls := calls w @ [DynamicLoadRules rulePath]\<rparr>
      in case dynamicLoadRules e rulePath (ruleSet w1) of
           Inl x \<Rightarrow> (Inl x, w1)
         | Inr rs \<Rightarrow> loadRulePaths e rest (w1\<lparr>ruleSet := rs\<rparr>))"

definition consumeArgRulesPath ::
  "('rs, 'c) env \<Rightarrow> options \<Rightarrow> ('rs, 'c) world \<Rightarrow> (string + unit) \<times> ('rs, 'c) world" where
  "consumeArgRulesPath e opts w = loadRulePaths e (rulesPath opts) w"

text \<open>
  Modelled from the spec: \<^verbatim>\<open>reporters.h\<close> (\<^verbatim>\<open>loadReporter\<close>, \<^verbatim>\<open>reporters\<close>) is not among
  the sources. The spec: for each reporter name in configuration, look it up in the
  reporter registry; an unresolved name fails start-up with an error naming the missing
  reporter. The reporters resolved are the ones the reporting loop runs, in configured
  order. The spec fixes no wording for the error; here it is the reporter's name after a
  fixed prefix.
\<close>

fun resolveReporters ::
  "(string \<rightharpoonup> 'c reporter) \<Rightarrow> string list \<Rightarrow> string + 'c reporter list" where
  "resolveReporters reg [] = Inr []"
| "resolveReporters reg (n # ns) =
     (case reg n of
        None \<Rightarrow> Inl (''cannot find reporter '' @ n)
      | Some r \<Rightarrow> (case resolveReporters reg ns of Inl x \<Rightarrow> Inl x | Inr rs \<Rightarrow> Inr (r # rs)))"

definition loadReporter ::
  "('rs, 'c) env \<Rightarrow> options \<Rightarrow> ('rs, 'c) world \<Rightarrow> (string + unit) \<times> ('rs, 'c) world" where
  "loadReporter e opts w =
     (let w1 = w\<lparr>calls := calls w @ [LoadReporter]\<rparr>
      in case resolveReporters (reporterRegistry e) (reportType opts) of
           Inl x \<Rightarrow> (Inl x, w1)
         | Inr rs \<Rightarrow> (Inr (), w1\<lparr>loadedReporters := rs\<rparr>))"

definition reporters :: "('rs, 'c) world \<Rightarrow> 'c reporter list" where
  "reporters w = loadedReporters w"

definition prepare ::
  "('rs, 'c) env \<Rightarrow> options \<Rightarrow> ('rs, 'c) world \<Rightarrow> exit_code \<times> ('rs, 'c) world" where
  "prepare e opts w =
     (case consumeArgRulesPath e opts w of
        (Inl x, w1) \<Rightarrow> (RULE_NOT_FOUND, printErrorLine x w1)
      | (Inr _, w1) \<Rightarrow>
          if numberOfRules e (ruleSet w1) \<le> 0
            then (RULE_NOT_FOUND, printErrorLine ''no rule loaded'' w1)
          else (case loadReporter e opts w1 of
                  (Inl x, w2) \<Rightarrow> (REPORTER_NOT_FOUND, printErrorLine x w2)
                | (Inr _, w2) \<Rightarrow> (SUCCESS, w2)))"

subsection \<open>Analysis, reporting and exit\<close>

definition driver_run ::
  "('rs, 'c) env \<Rightarrow> ('rs, 'c) world \<Rightarrow> string option \<times> ('rs, 'c) world" where
  "driver_run e w =
     (let w1 = w\<lparr>calls := calls w @ [DriverRun]\<rparr>
      in case driverRun e (ruleSet w1) (collector w1) of
           (x, c) \<Rightarrow> (x, w1\<lparr>collector := c\<rparr>))"

text \<open>The whole text a call of \<^verbatim>\<open>report\<close> writes.\<close>

definition written :: "'c reporter \<Rightarrow> 'c results \<Rightarrow> string" where
  "written r res = flushed (report r res) @ pending (report r res)"

text \<open>
  One turn of the reporting loop of \<^verbatim>\<open>main\<close> (lines 215 to 217). When \<^verbatim>\<open>report\<close>
  raises, \<^verbatim>\<open>disposeOutStream\<close> is skipped: the stream stays open, with its buffer.
\<close>

definition reportOne ::
  "('rs, 'c) env \<Rightarrow> options \<Rightarrow> 'c results \<Rightarrow> 'c reporter \<Rightarrow> ('rs, 'c) world
     \<Rightarrow> (string + unit) \<times> ('rs, 'c) world" where
  "reportOne e opts res r w =
     (case outStream e opts r w of
        (Inl x, w1) \<Rightarrow> (Inl x, w1)
      | (Inr out, w1) \<Rightarrow>
          (let w2 = write_stream out (pending (report r res))
                      (flush_stream out
                         (write_stream out (flushed (report r res))
                            (w1\<lparr>calls := calls w1 @ [Report (name r)]\<rparr>)))
           in case raised (report r res) of
                Some x \<Rightarrow> (Inl x, w2)
              | None \<Rightarrow> (Inr (), disposeOutStream opts (Some out) w2)))"

fun reportLoop ::
  "('rs, 'c) env \<Rightarrow> options \<Rightarrow> 'c results \<Rightarrow> 'c reporter list \<Rightarrow> ('rs, 'c) world
     \<Rightarrow> (string + unit) \<times> ('rs, 'c) world" where
  "reportLoop e opts res [] w = (Inr (), w)"
| "reportLoop e opts res (r # rs) w =
     (case reportOne e opts res r w of
        (Inl x, w1) \<Rightarrow> (Inl x, w1)
      | (Inr _, w1) \<Rightarrow> reportLoop e opts res rs w1)"

text \<open>The end of \<^verbatim>\<open>main\<close>, from the reporting loop on (lines 212 to 226).\<close>

definition main_report ::
  "('rs, 'c) env \<Rightarrow> options \<Rightarrow> 'c results \<Rightarrow> ('rs, 'c) world \<Rightarrow> exit_code \<times> ('rs, 'c) world" where
  "main_report e opts res w =
     (case reportLoop e opts res (reporters w) w of
        (Inl x, w1) \<Rightarrow> (ERROR_WHILE_REPORTING, printErrorLine x w1)
      | (Inr _, w1) \<Rightarrow> handleExit e opts res w1)"

definition main ::
  "('rs, 'c) env \<Rightarrow> options \<Rightarrow> ('rs, 'c) world \<Rightarrow> exit_code \<times> ('rs, 'c) world" where
  "main e opts w =
     (case parserError e of
        Some x \<Rightarrow> (COMMON_OPTIONS_PARSER_ERRORS, to_cerr x w)
      | None \<Rightarrow>
          (case prepare e opts w of
             (prepareStatus, w1) \<Rightarrow>
               if prepareStatus \<noteq> SUCCESS then (prepareStatus, w1)
               else (let w2 = (if showEnabledRules opts then listRules e w1 else w1)
                     in case driver_run e w2 of
                          (Some x, w3) \<Rightarrow> (ERROR_WHILE_PROCESSING, printErrorLine x w3)
                        | (None, w3) \<Rightarrow>
                            main_report e opts (getResults opts (collector w3)) w3)))"

text \<open>The calls made to the collaborators between two states of one run.\<close>

definition callsDuring :: "('rs, 'c) world \<Rightarrow> ('rs, 'c) world \<Rightarrow> call list" where
  "callsDuring w w' = drop (length (calls w)) (calls w')"

text \<open>The streams closed between two states of one run.\<close>

definition closedDuring :: "('rs, 'c) world \<Rightarrow> ('rs, 'c) world \<Rightarrow> ostream list" where
  "closedDuring w w' = drop (length (closedStreams w)) (closedStreams w')"

subsection \<open>Concrete collaborators\<close>

text \<open>
  A small instance of the parameters, on which the driver can be evaluated: the rule set
  is the list of loaded rule names, the collector is the hard-error flag with the
  priorities of the recorded violations.
\<close>

definition collectorOf :: "'c results \<Rightarrow> 'c" where
  "collectorOf res = (case res of RawResults c \<Rightarrow> c | UniqueResults c \<Rightarrow> c)"

definition text_reporter :: "(bool \<times> int list) reporter" where
  "text_reporter =
     \<lparr>name = ''text'',
      report = (\<lambda>res. \<lparr>flushed = [], pending = ''OCLint Report'', raised = None\<rparr>)\<rparr>"

definition xml_reporter :: "(bool \<times> int list) reporter" where
  "xml_reporter =
     \<lparr>name = ''xml'',
      report = (\<lambda>res. \<lparr>flushed = [], pending = ''<oclint/>'', raised = None\<rparr>)\<rparr>"

definition html_reporter :: "(bool \<times> int list) reporter" where
  "html_reporter =
     \<lparr>name = ''html'',
      report = (\<lambda>res. \<lparr>flushed = ''<html>'', pending = ''<body>'',
                          raised = Some ''write failed''\<rparr>)\<rparr>"

definition example_env :: "bool \<times> int list \<Rightarrow> (string list, bool \<times> int list) env" where
  "example_env analysed =
     \<lparr>parserError = None,
      dynamicLoadRules = (\<lambda>p rs. if p = ''missing'' then Inl (''cannot open '' @ p)
                                  else if p = ''empty'' then Inr rs
                                  else Inr (rs @ [p])),
      numberOfRules = (\<lambda>rs. int (length rs)),
      filteredRuleNames = (\<lambda>rs. rs),
      reporterRegistry = [''text'' \<mapsto> text_reporter, ''xml'' \<mapsto> xml_reporter,
                          ''html'' \<mapsto> html_reporter],
      driverRun = (\<lambda>rs c. (None, analysed)),
      hasErrors = (\<lambda>res. fst (collectorOf res)),
      numberOfViolationsWithPriority = (\<lambda>res p. int (count_list (snd (collectorOf res)) p)),
      canOpen = (\<lambda>p. take 4 p = ''out/'')\<rparr>"

definition example_options :: options where
  "example_options =
     \<lparr>rulesPath = [''rules''], reportType = [''text''], hasOutputPath = False,
      outputPath = [], maxP1 = 0, maxP2 = 10, maxP3 = 20,
      allowDuplicatedViolations = False, showEnabledRules = False\<rparr>"

definition example_world :: "(string list, bool \<times> int list) world" where
  "example_world =
     \<lparr>cout = [], cerr = [], files = Map.empty, buffered = Map.empty, closedStreams = [],
      ruleSet = [],
      collector = (False, []), loadedReporters = [], calls = []\<rparr>"

definition json_reporter :: "(bool \<times> int list) reporter" where
  "json_reporter =
     \<lparr>name = ''json'',
      report = (\<lambda>res. \<lparr>flushed = [], pending = ''{}'', raised = None\<rparr>)\<rparr>"

definition bare_options :: options where
  "bare_options = example_options\<lparr>hasOutputPath := True, outputPath := ''report''\<rparr>"

definition report_options :: options where
  "report_options =
     example_options\<lparr>reportType := [''text'', ''xml'', ''html''], hasOutputPath := True,
                     outputPath := ''out/report.txt''\<rparr>"

definition reporting_world :: "(string list, bool \<times> int list) world" where
  "reporting_world =
     example_world\<lparr>loadedReporters := [text_reporter, xml_reporter, html_reporter]\<rparr>"

text \<open>A second reporter of the name \<open>text\<close>, which raises before it has flushed anything.\<close>

definition failing_text_reporter :: "(bool \<times> int list) reporter" where
  "failing_text_reporter =
     \<lparr>name = ''text'',
      report = (\<lambda>res. \<lparr>flushed = [], pending = ''OCLint'', raised = Some ''write failed''\<rparr>)\<rparr>"

definition same_name_world :: "(string list, bool \<times> int list) world" where
  "same_name_world =
     example_world\<lparr>loadedReporters := [text_reporter, failing_text_reporter]\<rparr>"

definition readonly_xml_env :: "(string list, bool \<times> int list) env" where
  "readonly_xml_env = (example_env (False, []))\<lparr>canOpen := (\<lambda>p. p \<noteq> ''out/report.xml'')\<rparr>"

section \<open>Properties\<close>


text \<open>
  C1. Whenever the results view has recorded a hard analysis error, \<open>handleExit\<close> returns
  \<open>COMPILATION_ERRORS\<close> and writes nothing, whatever the violation counts and the three
  ceilings are: the counts are only looked at when there is no hard error.
\<close>

theorem handleExit_errors_first:
  "hasErrors e res \<Longrightarrow>
     handleExit (e\<lparr>numberOfViolationsWithPriority := cnt\<rparr>)
                (opts\<lparr>maxP1 := m1, maxP2 := m2, maxP3 := m3\<rparr>) res w = (COMPILATION_ERRORS, w)"
  by (simp add: handleExit_def)

text \<open>A view with a hard error, once far above the ceilings and once far below them.\<close>

theorem handleExit_errors_first_witness:
  "hasErrors (example_env (True, [1])) (UniqueResults (True, [1])) \<and>
   handleExit ((example_env (True, [1]))\<lparr>numberOfViolationsWithPriority := (\<lambda>res p. 7)\<rparr>)
              (example_options\<lparr>maxP1 := 0, maxP2 := 0, maxP3 := 0\<rparr>)
              (UniqueResults (True, [1])) example_world = (COMPILATION_ERRORS, example_world) \<and>
   handleExit ((example_env (True, [1]))\<lparr>numberOfViolationsWithPriority := (\<lambda>res p. 0)\<rparr>)
              (example_options\<lparr>maxP1 := 5, maxP2 := 5, maxP3 := 5\<rparr>)
              (UniqueResults (True, [1])) example_world = (COMPILATION_ERRORS, example_world)"
proof -
  have h: "hasErrors (example_env (True, [1])) (UniqueResults (True, [1]))"
    by (simp add: example_env_def collectorOf_def)
  show ?thesis
    using h handleExit_errors_first [OF h, where cnt = "\<lambda>res p. 7" and opts = example_options
        and ?m1.0 = 0 and ?m2.0 = 0 and ?m3.0 = 0 and w = example_world]
      handleExit_errors_first [OF h, where cnt = "\<lambda>res p. 0" and opts = example_options
        and ?m1.0 = 5 and ?m2.0 = 5 and ?m3.0 = 5 and w = example_world]
    by simp
qed

text \<open>
  C2. With no hard error, \<open>handleExit\<close> returns \<open>VIOLATIONS_EXCEED_THRESHOLD\<close> exactly when
  the count of some priority is strictly greater than its ceiling, and \<open>SUCCESS\<close> exactly
  when every count is at most its ceiling, so that a count equal to its ceiling passes.
\<close>

theorem handleExit_threshold:
  "\<not> hasErrors e res \<Longrightarrow>
     (fst (handleExit e opts res w) = VIOLATIONS_EXCEED_THRESHOLD \<longleftrightarrow>
        (numberOfViolationsWithPriority e res 1 > maxP1 opts \<or>
         numberOfViolationsWithPriority e res 2 > maxP2 opts \<or>
         numberOfViolationsWithPriority e res 3 > maxP3 opts)) \<and>
     (fst (handleExit e opts res w) = SUCCESS \<longleftrightarrow>
        (numberOfViolationsWithPriority e res 1 \<le> maxP1 opts \<and>
         numberOfViolationsWithPriority e res 2 \<le> maxP2 opts \<and>
         numberOfViolationsWithPriority e res 3 \<le> maxP3 opts))"
  by (auto simp add: handleExit_def numberOfViolationsExceedThreshold_def)

text \<open>Five violations of priority 1: ceiling 4 fails, ceiling 5 passes.\<close>

theorem handleExit_threshold_witness:
  "\<not> hasErrors (example_env (False, [1, 1, 1, 1, 1])) (RawResults (False, [1, 1, 1, 1, 1])) \<and>
   numberOfViolationsWithPriority (example_env (False, [1, 1, 1, 1, 1]))
      (RawResults (False, [1, 1, 1, 1, 1])) 1 = 5 \<and>
   fst (handleExit (example_env (False, [1, 1, 1, 1, 1])) (example_options\<lparr>maxP1 := 4\<rparr>)
      (RawResults (False, [1, 1, 1, 1, 1])) example_world) = VIOLATIONS_EXCEED_THRESHOLD \<and>
   fst (handleExit (example_env (False, [1, 1, 1, 1, 1])) (example_options\<lparr>maxP1 := 5\<rparr>)
      (RawResults (False, [1, 1, 1, 1, 1])) example_world) = SUCCESS"
proof -
  have h: "\<not> hasErrors (example_env (False, [1, 1, 1, 1, 1])) (RawResults (False, [1, 1, 1, 1, 1]))"
    by (simp add: example_env_def collectorOf_def)
  show ?thesis
    using h handleExit_threshold [OF h, where opts = "example_options\<lparr>maxP1 := 4\<rparr>" and w = example_world]
      handleExit_threshold [OF h, where opts = "example_options\<lparr>maxP1 := 5\<rparr>" and w = example_world]
    by (simp add: example_env_def collectorOf_def example_options_def)
qed

lemma digit_char_inj:
  "d < 10 \<Longrightarrow> d' < 10 \<Longrightarrow> digit_char d = digit_char d' \<Longrightarrow> d = d'"
proof -
  have e: "\<And>k. k < 10 \<Longrightarrow> k \<in> {0, 1, 2, 3, 4, 5, 6, 7, 8, 9 :: nat}" by auto
  assume "d < 10" "d' < 10" "digit_char d = digit_char d'"
  with e [of d] e [of d'] show ?thesis
    by (auto simp add: digit_char_def)
qed

lemma digit_char_not_minus: "d < 10 \<Longrightarrow> digit_char d \<noteq> CHR ''-''"
proof -
  have e: "\<And>k. k < 10 \<Longrightarrow> k \<in> {0, 1, 2, 3, 4, 5, 6, 7, 8, 9 :: nat}" by auto
  assume "d < 10"
  with e [of d] show ?thesis
    by (auto simp add: digit_char_def)
qed

lemma show_nat_no_minus: "CHR ''-'' \<notin> set (show_nat n)"
proof (induction n rule: show_nat.induct)
  case (1 n)
  show ?case
  proof (cases "n < 10")
    case True
    then have "show_nat n = [digit_char n]" by (subst show_nat.simps) simp
    with True show ?thesis using digit_char_not_minus [of n] by auto
  next
    case False
    then have "show_nat n = show_nat (n div 10) @ [digit_char (n mod 10)]"
      by (subst show_nat.simps) simp
    with "1.IH" [OF False] show ?thesis using digit_char_not_minus [of "n mod 10"] by auto
  qed
qed

lemma show_nat_nonempty: "show_nat n \<noteq> []"
  by (subst show_nat.simps) simp

lemma show_nat_inj: "show_nat n = show_nat m \<Longrightarrow> n = m"
proof (induction n arbitrary: m rule: show_nat.induct)
  case (1 n)
  show ?case
  proof (cases "n < 10")
    case True
    then have n: "show_nat n = [digit_char n]" by (subst show_nat.simps) simp
    show ?thesis
    proof (cases "m < 10")
      case mt: True
      then have "show_nat m = [digit_char m]" by (subst show_nat.simps) simp
      with n "1.prems" True mt show ?thesis by (auto dest: digit_char_inj)
    next
      case False
      then have "show_nat m = show_nat (m div 10) @ [digit_char (m mod 10)]"
        by (subst show_nat.simps) simp
      with n "1.prems" show_nat_nonempty [of "m div 10"] show ?thesis by simp
    qed
  next
    case False
    then have n: "show_nat n = show_nat (n div 10) @ [digit_char (n mod 10)]"
      by (subst show_nat.simps) simp
    show ?thesis
    proof (cases "m < 10")
      case True
      then have "show_nat m = [digit_char m]" by (subst show_nat.simps) simp
      with n "1.prems" show_nat_nonempty [of "n div 10"] show ?thesis by simp
    next
      case mf: False
      then have "show_nat m = show_nat (m div 10) @ [digit_char (m mod 10)]"
        by (subst show_nat.simps) simp
      with n "1.prems" have a: "show_nat (n div 10) = show_nat (m div 10)"
        and b: "digit_char (n mod 10) = digit_char (m mod 10)" by simp_all
      from "1.IH" [OF False a] have "n div 10 = m div 10" .
      moreover have "n mod 10 = m mod 10"
        by (rule digit_char_inj [OF _ _ b]) simp_all
      ultimately show ?thesis by (metis div_mult_mod_eq)
    qed
  qed
qed

text \<open>The decimal text of an integer determines the integer.\<close>

lemma show_int_inj: "show_int i = show_int j \<Longrightarrow> i = j"
proof -
  assume eq: "show_int i = show_int j"
  consider (neg) "i < 0" "j < 0" | (pos) "0 \<le> i" "0 \<le> j"
    | (np) "i < 0" "0 \<le> j" | (pn) "0 \<le> i" "j < 0"
    by linarith
  then show ?thesis
  proof cases
    case neg
    with eq have "show_nat (nat (- i)) = show_nat (nat (- j))" by (simp add: show_int_def)
    then have "nat (- i) = nat (- j)" by (rule show_nat_inj)
    with neg show ?thesis by simp
  next
    case pos
    with eq have "show_nat (nat i) = show_nat (nat j)" by (simp add: show_int_def)
    then have "nat i = nat j" by (rule show_nat_inj)
    with pos show ?thesis by simp
  next
    case np
    with eq have "CHR ''-'' # show_nat (nat (- i)) = show_nat (nat j)"
      by (simp add: show_int_def)
    then have "CHR ''-'' \<in> set (show_nat (nat j))" by (metis list.set_intros(1))
    with show_nat_no_minus show ?thesis by blast
  next
    case pn
    with eq have "show_nat (nat i) = CHR ''-'' # show_nat (nat (- j))"
      by (simp add: show_int_def)
    then have "CHR ''-'' \<in> set (show_nat (nat i))" by (metis list.set_intros(1))
    with show_nat_no_minus show ?thesis by blast
  qed
qed

text \<open>
  C7. Whenever \<open>handleExit\<close> decides \<open>VIOLATIONS_EXCEED_THRESHOLD\<close>, what it appends to the
  standard error channel is the error line followed by the count and the ceiling of each
  of the three priorities, whichever of them was exceeded.
\<close>

theorem threshold_diagnostic_all_priorities:
  "fst (handleExit e opts res w) = VIOLATIONS_EXCEED_THRESHOLD \<Longrightarrow>
     cerr (snd (handleExit e opts res w)) =
       cerr w @ endl @ ''oclint: error: violations exceed threshold'' @ endl
         @ ''P1='' @ show_int (numberOfViolationsWithPriority e res 1)
         @ ''['' @ show_int (maxP1 opts) @ ''] ''
         @ ''P2='' @ show_int (numberOfViolationsWithPriority e res 2)
         @ ''['' @ show_int (maxP2 opts) @ ''] ''
         @ ''P3='' @ show_int (numberOfViolationsWithPriority e res 3)
         @ ''['' @ show_int (maxP3 opts) @ ''] '' @ endl"
  by (simp add: handleExit_def printViolationsExceedThresholdError_def printErrorLine_def
      to_cerr_def Let_def split: if_splits)

text \<open>Only priority 3 is above its ceiling; all three pairs are printed.\<close>

theorem threshold_diagnostic_all_priorities_witness:
  "fst (handleExit (example_env (False, [3, 3, 1, 2])) (example_options\<lparr>maxP1 := 1, maxP3 := 1\<rparr>)
          (RawResults (False, [3, 3, 1, 2])) example_world) = VIOLATIONS_EXCEED_THRESHOLD \<and>
   cerr (snd (handleExit (example_env (False, [3, 3, 1, 2])) (example_options\<lparr>maxP1 := 1, maxP3 := 1\<rparr>)
          (RawResults (False, [3, 3, 1, 2])) example_world)) =
     [CHR 0x0A] @ ''oclint: error: violations exceed threshold'' @ [CHR 0x0A]
       @ ''P1=1[1] P2=1[10] P3=2[1] '' @ [CHR 0x0A]"
proof -
  have h: "fst (handleExit (example_env (False, [3, 3, 1, 2])) (example_options\<lparr>maxP1 := 1, maxP3 := 1\<rparr>)
          (RawResults (False, [3, 3, 1, 2])) example_world) = VIOLATIONS_EXCEED_THRESHOLD"
    by (simp add: handleExit_def numberOfViolationsExceedThreshold_def example_env_def
        collectorOf_def example_options_def)
  show ?thesis
    using h threshold_diagnostic_all_priorities [OF h]
    by (simp add: example_env_def collectorOf_def example_options_def example_world_def
        show_int_def show_nat.simps digit_char_def endl_def)
qed

text \<open>
  C9. \<open>getResults\<close> builds the raw view over the collector exactly when
  \<open>allowDuplicatedViolations\<close> is set and the unique view over the same collector exactly
  when it is not: one boolean selects, and exactly one of the two variants is built.
\<close>

theorem getResults_one_boolean:
  "(getResults opts c = RawResults c \<longleftrightarrow> allowDuplicatedViolations opts) \<and>
   (getResults opts c = UniqueResults c \<longleftrightarrow> \<not> allowDuplicatedViolations opts)"
  by (simp add: getResults_def)

lemma loadRulePaths_calls:
  "loadRulePaths e ps w = (r, w') \<Longrightarrow>
     \<exists>k. calls w' = calls w @ map DynamicLoadRules (take k ps)"
proof (induction ps arbitrary: w)
  case Nil
  then show ?case by simp
next
  case (Cons p ps)
  show ?case
  proof (cases "dynamicLoadRules e p (ruleSet w)")
    case (Inl x)
    with Cons.prems have "calls w' = calls w @ map DynamicLoadRules (take 1 (p # ps))"
      by (auto simp add: Let_def)
    then show ?thesis by blast
  next
    case (Inr rs)
    with Cons.prems have
      "loadRulePaths e ps (w\<lparr>calls := calls w @ [DynamicLoadRules p], ruleSet := rs\<rparr>) = (r, w')"
      by (simp add: Let_def)
    from Cons.IH [OF this] obtain k where
      "calls w' = calls w @ [DynamicLoadRules p] @ map DynamicLoadRules (take k ps)"
      by auto
    then have "calls w' = calls w @ map DynamicLoadRules (take (Suc k) (p # ps))"
      by simp
    then show ?thesis by blast
  qed
qed

lemma loadRulePaths_success_calls:
  "loadRulePaths e ps w = (Inr u, w') \<Longrightarrow> calls w' = calls w @ map DynamicLoadRules ps"
  by (induction ps arbitrary: w) (auto simp add: Let_def split: sum.splits)

lemma loadRulePaths_keeps:
  "loadRulePaths e ps w = (r, w') \<Longrightarrow>
     collector w' = collector w \<and> cout w' = cout w \<and> cerr w' = cerr w \<and> files w' = files w"
  by (induction ps arbitrary: w) (auto simp add: Let_def split: sum.splits)


lemma resolveReporters_resolved:
  "\<forall>n \<in> set ns. reg n \<noteq> None \<Longrightarrow> resolveReporters reg ns = Inr (map (\<lambda>n. the (reg n)) ns)"
  by (induction ns) (auto split: option.splits sum.splits)

lemma prepare_calls:
  "\<exists>k. calls (snd (prepare e opts w)) = calls w @ map DynamicLoadRules (take k (rulesPath opts))
      \<or> calls (snd (prepare e opts w)) = calls w @ map DynamicLoadRules (rulesPath opts) @ [LoadReporter]"
proof (cases "consumeArgRulesPath e opts w")
  case (Pair r w1)
  then have l: "loadRulePaths e (rulesPath opts) w = (r, w1)"
    by (simp add: consumeArgRulesPath_def)
  from loadRulePaths_calls [OF l] obtain k where
    k: "calls w1 = calls w @ map DynamicLoadRules (take k (rulesPath opts))" by blast
  show ?thesis
  proof (cases r)
    case (Inl x)
    with Pair k show ?thesis
      by (auto simp add: prepare_def printErrorLine_def to_cerr_def)
  next
    case (Inr u)
    with l have "calls w1 = calls w @ map DynamicLoadRules (rulesPath opts)"
      using loadRulePaths_success_calls by blast
    with Pair Inr k show ?thesis
      by (auto simp add: prepare_def printErrorLine_def to_cerr_def loadReporter_def Let_def
          split: sum.splits)
  qed
qed

lemma prepare_no_analysis:
  "DriverRun \<notin> set (callsDuring w (snd (prepare e opts w)))"
  using prepare_calls [of e opts w] by (auto simp add: callsDuring_def)

lemma prepare_collector: "collector (snd (prepare e opts w)) = collector w"
proof (cases "consumeArgRulesPath e opts w")
  case (Pair r w1)
  then have "collector w1 = collector w"
    using loadRulePaths_keeps by (fastforce simp add: consumeArgRulesPath_def)
  with Pair show ?thesis
    by (auto simp add: prepare_def printErrorLine_def to_cerr_def loadReporter_def Let_def
        split: sum.splits)
qed

lemma main_stops_after_prepare:
  "parserError e = None \<Longrightarrow> fst (prepare e opts w) \<noteq> SUCCESS \<Longrightarrow>
     main e opts w = prepare e opts w"
  by (cases "prepare e opts w") (simp add: main_def)

lemma main_after_analysis:
  assumes "parserError e = None" and "prepare e opts w = (SUCCESS, w1)"
    and "driver_run e (if showEnabledRules opts then listRules e w1 else w1) = (None, w3)"
  shows "main e opts w = main_report e opts (getResults opts (collector w3)) w3"
  using assms by (simp add: main_def Let_def)

lemma main_no_analysis_before_success:
  "fst (prepare e opts w) \<noteq> SUCCESS \<Longrightarrow>
     DriverRun \<notin> set (callsDuring w (snd (main e opts w))) \<and>
     collector (snd (main e opts w)) = collector w"
proof (cases "parserError e")
  case (Some x)
  then show ?thesis
    by (simp add: main_def to_cerr_def callsDuring_def)
next
  case None
  assume "fst (prepare e opts w) \<noteq> SUCCESS"
  with None have "main e opts w = prepare e opts w"
    by (rule main_stops_after_prepare)
  then show ?thesis
    using prepare_no_analysis [of w e opts] prepare_collector [of e opts w] by simp
qed

text \<open>
  C5. When every configured rule path loaded without an error but the rule set is still
  empty (no path at all, or paths that register nothing), \<open>prepare\<close> returns
  \<open>RULE_NOT_FOUND\<close>, which is the exit status of \<open>main\<close> once the options were parsed; the
  analysis driver is never called and the result collector is untouched.
\<close>

theorem no_rules_no_analysis:
  assumes "consumeArgRulesPath e opts w = (Inr (), w1)"
    and "numberOfRules e (ruleSet w1) \<le> 0"
  shows "fst (prepare e opts w) = RULE_NOT_FOUND \<and>
         DriverRun \<notin> set (callsDuring w (snd (main e opts w))) \<and>
         collector (snd (main e opts w)) = collector w \<and>
         (parserError e = None \<longrightarrow> fst (main e opts w) = RULE_NOT_FOUND)"
proof -
  from assms have p: "fst (prepare e opts w) = RULE_NOT_FOUND"
    by (simp add: prepare_def)
  then have "parserError e = None \<longrightarrow> main e opts w = prepare e opts w"
    using main_stops_after_prepare [of e opts w] by simp
  with p show ?thesis
    using main_no_analysis_before_success [of e opts w] by simp
qed


text \<open>No rule path, and two rule paths that register nothing.\<close>

theorem no_rules_no_analysis_witness:
  "parserError (example_env (False, [1])) = None \<and>
   fst (consumeArgRulesPath (example_env (False, [1])) (example_options\<lparr>rulesPath := []\<rparr>)
         example_world) = Inr () \<and>
   fst (main (example_env (False, [1])) (example_options\<lparr>rulesPath := []\<rparr>) example_world)
     = RULE_NOT_FOUND \<and>
   DriverRun \<notin> set (callsDuring example_world
     (snd (main (example_env (False, [1])) (example_options\<lparr>rulesPath := []\<rparr>) example_world))) \<and>
   fst (consumeArgRulesPath (example_env (False, [1]))
         (example_options\<lparr>rulesPath := [''empty'', ''empty'']\<rparr>) example_world) = Inr () \<and>
   fst (main (example_env (False, [1])) (example_options\<lparr>rulesPath := [''empty'', ''empty'']\<rparr>)
         example_world) = RULE_NOT_FOUND \<and>
   DriverRun \<notin> set (callsDuring example_world
     (snd (main (example_env (False, [1]))
            (example_options\<lparr>rulesPath := [''empty'', ''empty'']\<rparr>) example_world)))"
proof -
  let ?e = "example_env (False, [1])"
  let ?o1 = "example_options\<lparr>rulesPath := []\<rparr>"
  let ?o2 = "example_options\<lparr>rulesPath := [''empty'', ''empty'']\<rparr>"
  have p: "parserError ?e = None"
    by (simp add: example_env_def)
  have a1: "fst (consumeArgRulesPath ?e ?o1 example_world) = Inr ()"
    by code_simp
  have n1: "numberOfRules ?e (ruleSet (snd (consumeArgRulesPath ?e ?o1 example_world))) \<le> 0"
    by code_simp
  have a2: "fst (consumeArgRulesPath ?e ?o2 example_world) = Inr ()"
    by code_simp
  have n2: "numberOfRules ?e (ruleSet (snd (consumeArgRulesPath ?e ?o2 example_world))) \<le> 0"
    by code_simp
  have b1: "consumeArgRulesPath ?e ?o1 example_world
      = (Inr (), snd (consumeArgRulesPath ?e ?o1 example_world))"
    using a1 by (simp add: prod_eq_iff)
  have b2: "consumeArgRulesPath ?e ?o2 example_world
      = (Inr (), snd (consumeArgRulesPath ?e ?o2 example_world))"
    using a2 by (simp add: prod_eq_iff)
  show ?thesis
    using no_rules_no_analysis [OF b1 n1] no_rules_no_analysis [OF b2 n2] p a1 a2
    by simp
qed





text \<open>
  C10. A rule path that fails to load and a rule set that is empty after loading both
  make \<open>prepare\<close> return \<open>RULE_NOT_FOUND\<close>; the two differ in the line written to the
  standard error channel only.
\<close>

theorem rule_failures_same_status:
  "(consumeArgRulesPath e opts w = (Inl x, w1) \<longrightarrow>
      prepare e opts w = (RULE_NOT_FOUND, printErrorLine x w1) \<and>
      (parserError e = None \<longrightarrow> main e opts w = (RULE_NOT_FOUND, printErrorLine x w1))) \<and>
   (consumeArgRulesPath e opts w = (Inr (), w1) \<and> numberOfRules e (ruleSet w1) \<le> 0 \<longrightarrow>
      prepare e opts w = (RULE_NOT_FOUND, printErrorLine ''no rule loaded'' w1) \<and>
      (parserError e = None \<longrightarrow>
         main e opts w = (RULE_NOT_FOUND, printErrorLine ''no rule loaded'' w1)))"
  by (simp add: prepare_def main_def)

text \<open>A path that fails to load, and no path at all: the same status, two different lines.\<close>

theorem rule_failures_same_status_witness:
  "fst (consumeArgRulesPath (example_env (False, [])) (example_options\<lparr>rulesPath := [''missing'']\<rparr>)
         example_world) = Inl ''cannot open missing'' \<and>
   fst (consumeArgRulesPath (example_env (False, [])) (example_options\<lparr>rulesPath := []\<rparr>)
         example_world) = Inr () \<and>
   numberOfRules (example_env (False, []))
     (ruleSet (snd (consumeArgRulesPath (example_env (False, []))
                      (example_options\<lparr>rulesPath := []\<rparr>) example_world))) \<le> 0 \<and>
   parserError (example_env (False, [])) = None \<and>
   fst (main (example_env (False, [])) (example_options\<lparr>rulesPath := [''missing'']\<rparr>)
          example_world) = RULE_NOT_FOUND \<and>
   fst (main (example_env (False, [])) (example_options\<lparr>rulesPath := []\<rparr>)
          example_world) = RULE_NOT_FOUND \<and>
   cerr (snd (main (example_env (False, [])) (example_options\<lparr>rulesPath := [''missing'']\<rparr>)
          example_world)) = endl @ ''oclint: error: cannot open missing'' @ endl \<and>
   cerr (snd (main (example_env (False, [])) (example_options\<lparr>rulesPath := []\<rparr>)
          example_world)) = endl @ ''oclint: error: no rule loaded'' @ endl"
proof -
  let ?e = "example_env (False, [])"
  let ?o1 = "example_options\<lparr>rulesPath := [''missing'']\<rparr>"
  let ?o2 = "example_options\<lparr>rulesPath := []\<rparr>"
  have p: "parserError ?e = None"
    by (simp add: example_env_def)
  have a1: "fst (consumeArgRulesPath ?e ?o1 example_world) = Inl ''cannot open missing''"
    by code_simp
  have a2: "fst (consumeArgRulesPath ?e ?o2 example_world) = Inr ()"
    by code_simp
  have a3: "numberOfRules ?e (ruleSet (snd (consumeArgRulesPath ?e ?o2 example_world))) \<le> 0"
    by code_simp
  have c1: "cerr (snd (consumeArgRulesPath ?e ?o1 example_world)) = []"
    by code_simp
  have c2: "cerr (snd (consumeArgRulesPath ?e ?o2 example_world)) = []"
    by code_simp
  have b1: "consumeArgRulesPath ?e ?o1 example_world
      = (Inl ''cannot open missing'', snd (consumeArgRulesPath ?e ?o1 example_world))"
    using a1 by (simp add: prod_eq_iff)
  have b2: "consumeArgRulesPath ?e ?o2 example_world
      = (Inr (), snd (consumeArgRulesPath ?e ?o2 example_world))"
    using a2 by (simp add: prod_eq_iff)
  show ?thesis
    using rule_failures_same_status [of ?e ?o1 example_world "''cannot open missing''"
        "snd (consumeArgRulesPath ?e ?o1 example_world)"]
      rule_failures_same_status [of ?e ?o2 example_world "[]"
        "snd (consumeArgRulesPath ?e ?o2 example_world)"]
      p a1 a2 a3 b1 b2 c1 c2
    by (simp add: printErrorLine_def to_cerr_def)
qed


lemma reportOne_stdout:
  "\<not> hasOutputPath opts \<Longrightarrow>
     reportOne e opts res r w =
       ((case raised (report r res) of Some x \<Rightarrow> Inl x | None \<Rightarrow> Inr ()),
        w\<lparr>calls := calls w @ [Report (name r)], cout := cout w @ written r res\<rparr>)"
  by (simp add: reportOne_def outStream_def disposeOutStream_def to_cout_def written_def Let_def
      split: option.splits)

lemma reportOne_unopenable:
  "hasOutputPath opts \<Longrightarrow> \<not> canOpen e (derivedOutput opts r) \<Longrightarrow>
     reportOne e opts res r w =
       (Inl (''cannot open report output file '' @ derivedOutput opts r), w)"
  by (simp add: reportOne_def outStream_def Let_def)

lemma reportOne_file:
  "hasOutputPath opts \<Longrightarrow> canOpen e (derivedOutput opts r) \<Longrightarrow>
     reportOne e opts res r w =
       (case raised (report r res) of
          Some x \<Rightarrow>
            (Inl x, w\<lparr>files := (files w)(derivedOutput opts r \<mapsto> flushed (report r res)),
                      buffered := (buffered w)(derivedOutput opts r \<mapsto> pending (report r res)),
                      calls := calls w @ [Report (name r)]\<rparr>)
        | None \<Rightarrow>
            (Inr (), w\<lparr>files := (files w)(derivedOutput opts r \<mapsto> written r res),
                       buffered := (buffered w)(derivedOutput opts r := None),
                       calls := calls w @ [Report (name r)],
                       closedStreams := closedStreams w @ [OfStream (derivedOutput opts r)]\<rparr>))"
  by (simp add: reportOne_def outStream_def disposeOutStream_def close_stream_def written_def
      Let_def split: option.splits)

lemma reportOne_cases:
  obtains (stdout) "\<not> hasOutputPath opts"
  | (unopenable) "hasOutputPath opts" "\<not> canOpen e (derivedOutput opts r)"
  | (tofile) "hasOutputPath opts" "canOpen e (derivedOutput opts r)"
  by blast


lemma reportOne_closed:
  assumes "reportOne e opts res r w = (u, w')"
  shows "\<exists>xs. closedStreams w' = closedStreams w @ xs \<and> Cout \<notin> set xs \<and>
              (\<not> hasOutputPath opts \<longrightarrow> xs = [])"
  by (rule reportOne_cases [where opts = opts and e = e and r = r])
     (use assms in \<open>auto simp add: reportOne_stdout reportOne_unopenable reportOne_file
        split: option.splits\<close>)

lemma reportLoop_closed:
  "reportLoop e opts res rs w = (u, w') \<Longrightarrow>
     \<exists>xs. closedStreams w' = closedStreams w @ xs \<and> Cout \<notin> set xs \<and>
          (\<not> hasOutputPath opts \<longrightarrow> xs = [])"
proof (induction rs arbitrary: w)
  case Nil
  then show ?case by simp
next
  case (Cons r rs)
  obtain v w1 where one: "reportOne e opts res r w = (v, w1)"
    by (cases "reportOne e opts res r w")
  from reportOne_closed [OF one] obtain xs where
    xs: "closedStreams w1 = closedStreams w @ xs" "Cout \<notin> set xs"
        "\<not> hasOutputPath opts \<longrightarrow> xs = []" by blast
  show ?case
  proof (cases v)
    case (Inl x)
    with one Cons.prems have "w' = w1" by simp
    with xs show ?thesis by blast
  next
    case (Inr a)
    with one Cons.prems have "reportLoop e opts res rs w1 = (u, w')" by simp
    from Cons.IH [OF this] obtain ys where
      "closedStreams w' = closedStreams w1 @ ys" "Cout \<notin> set ys"
      "\<not> hasOutputPath opts \<longrightarrow> ys = []" by blast
    with xs have "closedStreams w' = closedStreams w @ (xs @ ys) \<and> Cout \<notin> set (xs @ ys) \<and>
        (\<not> hasOutputPath opts \<longrightarrow> xs @ ys = [])" by simp
    then show ?thesis by blast
  qed
qed

lemma main_report_closed:
  "\<exists>xs. closedStreams (snd (main_report e opts res w)) = closedStreams w @ xs \<and>
        Cout \<notin> set xs \<and> (\<not> hasOutputPath opts \<longrightarrow> xs = [])"
proof -
  obtain u w1 where l: "reportLoop e opts res (reporters w) w = (u, w1)"
    by (cases "reportLoop e opts res (reporters w) w")
  have "closedStreams (snd (main_report e opts res w)) = closedStreams w1"
    using l by (auto simp add: main_report_def handleExit_def printErrorLine_def to_cerr_def
        printViolationsExceedThresholdError_def Let_def split: sum.splits)
  with reportLoop_closed [OF l] show ?thesis by simp
qed

text \<open>
  C8. With no output path configured, \<open>outStream\<close> returns the standard output stream for
  every reporter and leaves the state as it is, \<open>disposeOutStream\<close> does nothing, and the
  whole reporting phase closes no stream. In any configuration the standard output
  stream is never among the streams closed, and \<open>outStream\<close> returns a file stream only
  when an output path is configured.
\<close>

theorem stdout_shared_never_closed:
  "(\<not> hasOutputPath opts \<longrightarrow>
      outStream e opts r w = (Inr Cout, w) \<and>
      disposeOutStream opts out w = w \<and>
      closedStreams (snd (main_report e opts res w)) = closedStreams w) \<and>
   (\<forall>p w'. outStream e opts r w = (Inr (OfStream p), w') \<longrightarrow> hasOutputPath opts) \<and>
   Cout \<notin> set (closedDuring w (snd (main_report e opts res w)))"
proof -
  from main_report_closed [of e opts res w] obtain xs where
    xs: "closedStreams (snd (main_report e opts res w)) = closedStreams w @ xs"
      "Cout \<notin> set xs" "\<not> hasOutputPath opts \<longrightarrow> xs = []" by blast
  have a: "\<not> hasOutputPath opts \<longrightarrow> outStream e opts r w = (Inr Cout, w) \<and>
      disposeOutStream opts out w = w"
    by (simp add: outStream_def disposeOutStream_def split: option.splits)
  have b: "\<forall>p w'. outStream e opts r w = (Inr (OfStream p), w') \<longrightarrow> hasOutputPath opts"
    by (auto simp add: outStream_def)
  from xs a b show ?thesis by (simp add: closedDuring_def)
qed

text \<open>The concrete reporters and paths, for evaluating runs of the reporting loop.\<close>

lemma example_derived_paths:
  "derivedOutput report_options text_reporter = ''out/report.text''"
  "derivedOutput report_options xml_reporter = ''out/report.xml''"
  "derivedOutput report_options html_reporter = ''out/report.html''"
  "derivedOutput report_options failing_text_reporter = ''out/report.text''"
  by code_simp+

lemma example_reporter_facts:
  "name text_reporter = ''text''" "name xml_reporter = ''xml''" "name html_reporter = ''html''"
  "name failing_text_reporter = ''text''"
  "report text_reporter res = \<lparr>flushed = [], pending = ''OCLint Report'', raised = None\<rparr>"
  "report xml_reporter res = \<lparr>flushed = [], pending = ''<oclint/>'', raised = None\<rparr>"
  "report html_reporter res
     = \<lparr>flushed = ''<html>'', pending = ''<body>'', raised = Some ''write failed''\<rparr>"
  "report failing_text_reporter res
     = \<lparr>flushed = [], pending = ''OCLint'', raised = Some ''write failed''\<rparr>"
  by (simp_all add: text_reporter_def xml_reporter_def html_reporter_def
      failing_text_reporter_def)

lemma example_paths:
  "hasOutputPath report_options" "\<not> hasOutputPath example_options"
  "canOpen (example_env c) p = (take 4 p = ''out/'')"
  "canOpen readonly_xml_env p = (p \<noteq> ''out/report.xml'')"
  by (simp_all add: report_options_def example_options_def example_env_def readonly_xml_env_def)

lemmas report_run =
  main_report_def reporters_def reportOne_file reportOne_unopenable reportOne_stdout
  example_reporter_facts example_paths example_derived_paths written_def
  printErrorLine_def to_cerr_def handleExit_def
  reporting_world_def same_name_world_def example_world_def

text \<open>Three reporters, first on standard output, then with an output path.\<close>

theorem stdout_shared_never_closed_witness:
  "\<not> hasOutputPath example_options \<and>
   outStream (example_env (False, [])) example_options xml_reporter reporting_world
     = (Inr Cout, reporting_world) \<and>
   disposeOutStream example_options (Some Cout) reporting_world = reporting_world \<and>
   closedStreams (snd (main_report (example_env (False, [])) example_options
      (UniqueResults (False, [])) reporting_world)) = [] \<and>
   hasOutputPath report_options \<and>
   Cout \<notin> set (closedDuring reporting_world
     (snd (main_report (example_env (False, [])) report_options
        (UniqueResults (False, [])) reporting_world))) \<and>
   closedStreams (snd (main_report (example_env (False, [])) report_options
      (UniqueResults (False, [])) reporting_world))
     = [OfStream ''out/report.text'', OfStream ''out/report.xml'']"
proof -
  let ?e = "example_env (False, [])"
  have h: "\<not> hasOutputPath example_options"
    by (simp add: example_options_def)
  have h': "hasOutputPath report_options"
    by (simp add: report_options_def)
  have c0: "closedStreams reporting_world = []"
    by (simp add: reporting_world_def example_world_def)
  have c1: "closedStreams (snd (main_report ?e report_options
      (UniqueResults (False, [])) reporting_world))
     = [OfStream ''out/report.text'', OfStream ''out/report.xml'']"
    by (simp add: report_run)
  show ?thesis
    using stdout_shared_never_closed [of example_options ?e xml_reporter reporting_world
        "Some Cout" "UniqueResults (False, [])"]
      stdout_shared_never_closed [of report_options ?e xml_reporter reporting_world
        "Some Cout" "UniqueResults (False, [])"] h h' c0 c1
    by simp
qed














lemma last_of_distinct_name:
  "distinct (map name rs) \<Longrightarrow> d \<in> set rs \<Longrightarrow> last (filter (\<lambda>y. name y = name d) rs) = d"
proof (induction rs)
  case Nil
  then show ?case by simp
next
  case (Cons r rs)
  from Cons.prems(1) have nr: "name r \<notin> name ` set rs" and dist: "distinct (map name rs)"
    by simp_all
  show ?case
  proof (cases "d \<in> set rs")
    case True
    then have "name d \<in> name ` set rs" by (rule imageI)
    with nr have ne: "name r \<noteq> name d" by metis
    from True have "filter (\<lambda>y. name y = name d) rs \<noteq> []"
      by (auto simp add: filter_empty_conv)
    with ne Cons.IH [OF dist True] show ?thesis by simp
  next
    case False
    with Cons.prems(2) have d: "d = r" by simp
    have "\<forall>y \<in> set rs. name y \<noteq> name r"
      using nr by (metis imageI)
    with d have "filter (\<lambda>y. name y = name d) rs = []"
      by (simp add: filter_empty_conv)
    with d show ?thesis by simp
  qed
qed

text \<open>
  A turn fails when its file cannot be opened or its \<open>report\<close> raises; a loop that fails
  has a first failing turn, after a run of completed ones.
\<close>

lemma reportOne_failure_iff:
  "fst (reportOne e opts res r w) = Inl x \<longleftrightarrow>
     (hasOutputPath opts \<and> \<not> canOpen e (derivedOutput opts r) \<and>
        x = ''cannot open report output file '' @ derivedOutput opts r) \<or>
     ((hasOutputPath opts \<longrightarrow> canOpen e (derivedOutput opts r)) \<and> raised (report r res) = Some x)"
  by (rule reportOne_cases [where opts = opts and e = e and r = r])
     (auto simp add: reportOne_stdout reportOne_unopenable reportOne_file split: option.splits)

lemma reportLoop_failure_split:
  "reportLoop e opts res rs w = (Inl x, w') \<Longrightarrow>
     \<exists>finished r rest w1. rs = finished @ r # rest \<and>
        reportLoop e opts res finished w = (Inr (), w1) \<and>
        reportOne e opts res r w1 = (Inl x, w')"
proof (induction rs arbitrary: w)
  case Nil
  then show ?case by simp
next
  case (Cons r rs)
  obtain v w1 where one: "reportOne e opts res r w = (v, w1)"
    by (cases "reportOne e opts res r w")
  show ?case
  proof (cases v)
    case (Inl y)
    with one Cons.prems have "reportOne e opts res r w = (Inl x, w')" by simp
    then have "r # rs = [] @ r # rs \<and> reportLoop e opts res [] w = (Inr (), w) \<and>
        reportOne e opts res r w = (Inl x, w')" by simp
    then show ?thesis by blast
  next
    case (Inr u)
    with one Cons.prems have "reportLoop e opts res rs w1 = (Inl x, w')" by simp
    from Cons.IH [OF this] obtain finished r' rest w2 where
      s: "rs = finished @ r' # rest" "reportLoop e opts res finished w1 = (Inr (), w2)"
         "reportOne e opts res r' w2 = (Inl x, w')" by blast
    from one Inr s(2) have "reportLoop e opts res (r # finished) w = (Inr (), w2)" by simp
    with s(1,3) have "r # rs = (r # finished) @ r' # rest \<and>
        reportLoop e opts res (r # finished) w = (Inr (), w2) \<and>
        reportOne e opts res r' w2 = (Inl x, w')" by simp
    then show ?thesis by blast
  qed
qed




subsection \<open>The derived output path\<close>

lemma derivedOutput_has_separator: "CHR ''/'' \<in> set (derivedOutput opts r)"
  by (simp add: derivedOutput_def)

lemma derivedOutput_directory_template:
  "derivedOutput report_options json_reporter = ''out/report.json''"
  by code_simp

text \<open>
  C3. \<open>outStream\<close> joins the parent path, a separator, the stem, a dot and the reporter's
  name, whatever the parent path is. For the template \<open>report\<close>, which has no directory,
  the parent path is empty and the path derived for the reporter \<open>xml\<close> is
  \<open>/report.xml\<close>, in the root directory, where the claim has \<open>report.xml\<close>.
\<close>

theorem bare_template_derives_root_path:
  "parent_path ''report'' = [] \<and> stem ''report'' = ''report'' \<and>
   derivedOutput bare_options xml_reporter = ''/report.xml'' \<and>
   derivedOutput bare_options xml_reporter \<noteq> ''report.xml'' \<and>
   fst (outStream ((example_env (False, []))\<lparr>canOpen := (\<lambda>p. True)\<rparr>) bare_options
          xml_reporter example_world) = Inr (OfStream ''/report.xml'')"
  by code_simp

end
